theory Spec2Isabelle
  imports Main "HOL-Library.Word" "HOL-Library.Stream"
begin

section \<open>The lazy somersault ECU (examples/somersaultlazy.py)\<close>

text \<open>
  A shallow embedding of the class \<open>SomersaultLazyServer\<close>: the session state machine,
  the request dispatcher, the forward-flip operation and the idle supervisor.

  The diagnostic database (\<open>somersaultecu.database\<close>), the ISO-TP transport, the logger
  and Python's \<open>random\<close> module are collaborators of the class. The database is a
  parameter of every function (a record of its two operations, each of which may
  raise); the frames handed to the transport, the records handed to the logger and the
  stream of numbers that \<open>random.randrange\<close> will return form an explicit environment
  that is passed through the handlers. The callbacks \<open>connection_made\<close> and
  \<open>connection_lost\<close> only store the transport and write a debug record; they are not
  part of the model.
\<close>

subsection \<open>Data\<close>

type_synonym byte = "8 word"
type_synonym bytes = "byte list"

text \<open>Exceptions that can leave a handler. \<open>EncodeError\<close> stands for whatever the
  database raises when it cannot produce a response.\<close>

datatype exn =
    DecodeError
  | AssertionError
  | KeyError string
  | EncodeError

text \<open>A decoded message: \<open>message.service.short_name\<close>, \<open>message.coded_message\<close> and
  \<open>message.param_dict\<close>.\<close>

record message =
  service_short_name :: string
  coded_message :: bytes
  param_dict :: "string \<rightharpoonup> int"

text \<open>Which response object of the service is encoded:
  \<open>service.positive_responses[0]\<close>, \<open>service.negative_responses[0]\<close>, or the first
  response of the given short name, \<open>next(filter(lambda x: x.short_name == n, ...))\<close>.\<close>

datatype response_ref =
    Positive_first
  | Negative_first
  | Positive_named string
  | Negative_named string

datatype kwarg_value = Int_arg int | Str_arg string

type_synonym kwargs = "(string \<times> kwarg_value) list"

text \<open>The diagnostic layer. \<open>decode\<close> is \<open>somersault_lazy_diag_layer.decode\<close>;
  \<open>encode\<close> takes the service of the message, the response chosen, the
  \<open>coded_request\<close> and the remaining keyword arguments of \<open>response.encode\<close>. Either
  returns \<open>Inl\<close> of the exception it raises.\<close>

record catalog =
  decode :: "bytes \<Rightarrow> exn + message list"
  encode :: "string \<Rightarrow> response_ref \<Rightarrow> bytes \<Rightarrow> kwargs \<Rightarrow> exn + bytes"

text \<open>The fields of \<open>self\<close> that the handlers read and write.\<close>

record server =
  diag_session_open :: bool
  data_receive_event :: bool
  dizziness_level :: int
  max_dizziness_level :: int

datatype log_record =
    Debug_data_received bytes
  | Warning_could_not_decode
  | Info_received_message string

text \<open>The environment: frames given to \<open>self.transport.write\<close> (oldest first), records
  given to \<open>ecu_logger\<close> (oldest first), and the numbers \<open>random.randrange(0, 10000)\<close>
  returns from now on.\<close>

record env =
  transport :: "bytes list"
  ecu_log :: "log_record list"
  random :: "int stream"

text \<open>The result of a handler: the exception that left it (\<open>None\<close> when it returned),
  and the server and the environment as it left them.\<close>

type_synonym outcome = "exn option \<times> server \<times> env"

subsection \<open>Construction\<close>

text \<open>\<open>__init__\<close> sets the session closed, creates the event (clear), and sets
  \<open>dizziness_level = 0\<close>, \<open>max_dizziness_level = 10\<close>. \<open>new_server\<close> takes the bound as
  an argument; \<open>init\<close> is the server the source constructs. (The idle timeout and the
  constructor's checks of the communication parameters belong to the supervisor's
  clock and are not part of this state.)\<close>

definition new_server :: "int \<Rightarrow> server" where
  "new_server c =
     \<lparr>diag_session_open = False, data_receive_event = False,
      dizziness_level = 0, max_dizziness_level = c\<rparr>"

definition init :: server where
  "init = new_server 10"

subsection \<open>Effects\<close>

definition transport_write :: "bytes \<Rightarrow> env \<Rightarrow> env" where
  "transport_write payload e = e\<lparr>transport := transport e @ [payload]\<rparr>"

definition ecu_logger :: "log_record \<Rightarrow> env \<Rightarrow> env" where
  "ecu_logger r e = e\<lparr>ecu_log := ecu_log e @ [r]\<rparr>"

definition randrange :: "env \<Rightarrow> int \<times> env" where
  "randrange e = (shd (random e), e\<lparr>random := stl (random e)\<rparr>)"

definition getitem :: "(string \<rightharpoonup> int) \<Rightarrow> string \<Rightarrow> exn + int" where
  "getitem d k = (case d k of None \<Rightarrow> Inl (KeyError k) | Some v \<Rightarrow> Inr v)"

definition encode_response :: "catalog \<Rightarrow> message \<Rightarrow> response_ref \<Rightarrow> kwargs \<Rightarrow> exn + bytes" where
  "encode_response cat m r kw = encode cat (service_short_name m) r (coded_message m) kw"

text \<open>The two statements \<open>response_data = response.encode(coded_request = ..., ...)\<close>,
  \<open>self.transport.write(response_data)\<close>: if the encoder raises, nothing is written and
  the exception leaves the handler.\<close>

definition respond :: "catalog \<Rightarrow> message \<Rightarrow> response_ref \<Rightarrow> kwargs \<Rightarrow> server \<Rightarrow> env \<Rightarrow> outcome" where
  "respond cat m r kw s e =
     (case encode_response cat m r kw of
        Inl x \<Rightarrow> (Some x, s, e)
      | Inr response_data \<Rightarrow> (None, s, transport_write response_data e))"

subsection \<open>The forward flip\<close>

text \<open>The loop \<open>for i in range(0, num_flips)\<close> of \<open>handle_forward_flip_request\<close>, from
  index \<open>i\<close> on, together with the statements that follow the loop (its exit branch).\<close>

function flips_loop :: "catalog \<Rightarrow> message \<Rightarrow> int \<Rightarrow> int \<Rightarrow> server \<Rightarrow> env \<Rightarrow> outcome" where
  "flips_loop cat m i num_flips s e =
     (if i < num_flips then
        (if fst (randrange e) < 100 then
           respond cat m (Negative_named ''flips_not_done'')
             [(''reason'', Int_arg 2), (''flips_successfully_done'', Int_arg i)]
             s (snd (randrange e))
         else
           flips_loop cat m (i + 1) num_flips
             (s\<lparr>dizziness_level := dizziness_level s + 1\<rparr>) (snd (randrange e)))
      else
        respond cat m (Positive_named ''grudging_forward'') [] s e)"
  by pat_completeness auto
termination
  by (relation "measure (\<lambda>(cat, m, i, num_flips, s, e). nat (num_flips - i))") auto

declare flips_loop.simps [simp del]

definition handle_forward_flip_request :: "catalog \<Rightarrow> message \<Rightarrow> server \<Rightarrow> env \<Rightarrow> outcome" where
  "handle_forward_flip_request cat m s e =
     (case getitem (param_dict m) ''forward_soberness_check'' of
        Inl x \<Rightarrow> (Some x, s, e)
      | Inr soberness_check \<Rightarrow>
     (case getitem (param_dict m) ''num_flips'' of
        Inl x \<Rightarrow> (Some x, s, e)
      | Inr num_flips \<Rightarrow>
          if soberness_check \<noteq> 0x12 then
            respond cat m (Negative_named ''flips_not_done'')
              [(''reason'', Int_arg 0), (''flips_successfully_done'', Int_arg 0)] s e
          else if dizziness_level s + num_flips > max_dizziness_level s then
            (case encode_response cat m (Negative_named ''flips_not_done'')
                    [(''reason'', Int_arg 1),
                     (''flips_successfully_done'',
                        Int_arg (max_dizziness_level s - dizziness_level s))] of
               Inl x \<Rightarrow> (Some x, s, e)
             | Inr response_data \<Rightarrow>
                 (None, s\<lparr>dizziness_level := max_dizziness_level s\<rparr>, transport_write response_data e))
          else flips_loop cat m 0 num_flips s e))"

subsection \<open>The dispatcher\<close>

definition handle_request :: "catalog \<Rightarrow> message \<Rightarrow> server \<Rightarrow> env \<Rightarrow> outcome" where
  "handle_request cat m s e0 =
     (let e = ecu_logger (Info_received_message (service_short_name m)) e0 in
      if service_short_name m = ''tester_present'' then
        (if diag_session_open s then respond cat m Positive_first [] s e
         else respond cat m Negative_first [] s e)
      else if service_short_name m = ''session_start'' then
        (case (if \<not> diag_session_open s
               then encode_response cat m Positive_first
                      [(''can_do_backward_flips'', Str_arg ''false'')]
               else encode_response cat m Negative_first []) of
           Inl x \<Rightarrow> (Some x, s, e)
         | Inr response_payload \<Rightarrow>
             (None, s\<lparr>diag_session_open := True\<rparr>, transport_write response_payload e))
      else if \<not> diag_session_open s then
        (let rq_id = (case coded_message m of [] \<Rightarrow> 0 | b # _ \<Rightarrow> b) in
         (None, s, transport_write [0x7f, rq_id, 0x7f] e))
      else if service_short_name m = ''session_stop'' then
        (case (if diag_session_open s
               then encode_response cat m Positive_first []
               else encode_response cat m Negative_first []) of
           Inl x \<Rightarrow> (Some x, s, e)
         | Inr response_payload \<Rightarrow>
             (None, s\<lparr>diag_session_open := False\<rparr>, transport_write response_payload e))
      else if service_short_name m = ''do_forward_flips'' then
        handle_forward_flip_request cat m s e
      else (None, s, e))"

subsection \<open>Receiving a frame\<close>

text \<open>The clause \<open>except odxtools.exceptions.DecodeError\<close>: a \<open>DecodeError\<close> raised
  anywhere in the \<open>try\<close> block is logged as a warning and the callback returns; any
  other exception leaves the callback.\<close>

definition except_DecodeError :: "outcome \<Rightarrow> outcome" where
  "except_DecodeError r =
     (case r of (x, s, e) \<Rightarrow>
        if x = Some DecodeError then (None, s, ecu_logger Warning_could_not_decode e)
        else r)"

definition data_received :: "catalog \<Rightarrow> bytes \<Rightarrow> server \<Rightarrow> env \<Rightarrow> outcome" where
  "data_received cat data s0 e0 =
     (let s = s0\<lparr>data_receive_event := True\<rparr>;
          e = ecu_logger (Debug_data_received data) e0
      in except_DecodeError
           (case decode cat data of
              Inl x \<Rightarrow> (Some x, s, e)
            | Inr messages \<Rightarrow>
                if length messages \<noteq> 1 then (Some AssertionError, s, e)
                else handle_request cat (hd messages) s e))"

subsection \<open>The idle supervisor\<close>

definition close_diag_session :: "server \<Rightarrow> server" where
  "close_diag_session s =
     (if \<not> diag_session_open s then s else s\<lparr>diag_session_open := False\<rparr>)"

text \<open>How one \<open>await asyncio.wait_for(self._data_receive_event.wait(), ...)\<close> of \<open>_run\<close>
  ends: the wait returned, the timeout expired, or the task was cancelled. Which of the
  three happens is decided by the event loop and its clock, not by the class, so it is
  an input of the model; in particular nothing in \<open>_run\<close> rules out a timeout while
  the event is set.\<close>

datatype wait_outcome = Wait_returned | TimeoutError | CancelledError

text \<open>The body of the \<open>while True\<close> loop of \<open>_run\<close> after its wait has ended;
  \<open>None\<close> when the coroutine returns.\<close>

fun run_iteration :: "wait_outcome \<Rightarrow> server \<Rightarrow> server option" where
  "run_iteration TimeoutError s = Some (close_diag_session s)"
| "run_iteration CancelledError s = None"
| "run_iteration Wait_returned s =
     Some (if data_receive_event s then s\<lparr>data_receive_event := False\<rparr> else s)"

subsection \<open>The endpoint as a whole\<close>

text \<open>The event loop runs the receive callback and the supervisor one at a time
  (neither suspends inside a mutation). An exception that leaves the receive callback
  does not undo what the callback did before, and later frames are still served. The
  step in which the supervisor is cancelled changes nothing; that the task has ended
  is not recorded, so runs with further iterations after it are admitted as well,
  which only adds states to those the statements below range over.\<close>

datatype event = Frame bytes | Wait_ended wait_outcome

fun endpoint_step :: "catalog \<Rightarrow> server \<times> env \<Rightarrow> event \<Rightarrow> server \<times> env" where
  "endpoint_step cat (s, e) (Frame data) = snd (data_received cat data s e)"
| "endpoint_step cat (s, e) (Wait_ended w) =
     (case run_iteration w s of None \<Rightarrow> (s, e) | Some s' \<Rightarrow> (s', e))"

definition endpoint_run :: "catalog \<Rightarrow> server \<times> env \<Rightarrow> event list \<Rightarrow> server \<times> env" where
  "endpoint_run cat = foldl (endpoint_step cat)"

text \<open>The invariant of the dizziness counter.\<close>

definition dizziness_ok :: "server \<Rightarrow> bool" where
  "dizziness_ok s = (0 \<le> dizziness_level s \<and> dizziness_level s \<le> max_dizziness_level s)"

text \<open>Modelled from the spec: the constant \<open>uds.NegativeResponseId\<close>, which the tester
  reads from a module that is not among the sources; the spec gives the negative
  marker byte of a response frame as \<open>0x7F\<close>.\<close>

definition NegativeResponseId :: byte where
  "NegativeResponseId = 0x7F"

text \<open>The tester's test for a negative response in \<open>tester_await_response\<close>:
  \<open>len(raw_response) >= 3\<close> and \<open>raw_response[0] == uds.NegativeResponseId\<close>.\<close>

definition is_negative_response :: "bytes \<Rightarrow> bool" where
  "is_negative_response raw_response =
     (length raw_response \<ge> 3 \<and> hd raw_response = NegativeResponseId)"

subsection \<open>A small diagnostic layer for concrete runs\<close>

text \<open>The statements below are evaluated on concrete frames against this layer. It is
  not the somersault database (which the class only reaches through \<open>decode\<close> and
  \<open>encode\<close>); it is an instance of the \<open>catalog\<close> parameter in the UDS style: the first
  byte of a request selects the service, a positive response starts with that byte
  plus \<open>0x40\<close>, a negative one with \<open>0x7F\<close> and that byte, and each keyword argument
  adds one byte. \<open>report_status\<close> is a service the dispatcher has no branch for; the
  byte \<open>0xEE\<close> decodes to two messages.\<close>

definition sample_message :: "string \<Rightarrow> bytes \<Rightarrow> (string \<rightharpoonup> int) \<Rightarrow> message" where
  "sample_message n raw ps = \<lparr>service_short_name = n, coded_message = raw, param_dict = ps\<rparr>"

fun sample_decode :: "bytes \<Rightarrow> exn + message list" where
  "sample_decode [] = Inl DecodeError"
| "sample_decode (sid # rest) =
     (if sid = 0x3E then Inr [sample_message ''tester_present'' (sid # rest) Map.empty]
      else if sid = 0x10 then Inr [sample_message ''session_start'' (sid # rest) Map.empty]
      else if sid = 0x20 then Inr [sample_message ''session_stop'' (sid # rest) Map.empty]
      else if sid = 0x22 then Inr [sample_message ''report_status'' (sid # rest) Map.empty]
      else if sid = 0xBA then
        (case rest of
           [c, n] \<Rightarrow>
             Inr [sample_message ''do_forward_flips'' (sid # rest)
                    [''forward_soberness_check'' \<mapsto> uint c, ''num_flips'' \<mapsto> uint n]]
         | _ \<Rightarrow> Inl DecodeError)
      else if sid = 0xEE then
        Inr [sample_message ''tester_present'' (sid # rest) Map.empty,
             sample_message ''session_stop'' (sid # rest) Map.empty]
      else Inl DecodeError)"

fun sample_kwarg :: "kwarg_value \<Rightarrow> byte option" where
  "sample_kwarg (Int_arg v) = (if 0 \<le> v \<and> v < 256 then Some (word_of_int v) else None)"
| "sample_kwarg (Str_arg t) =
     (if t = ''false'' then Some 0 else if t = ''true'' then Some 1 else None)"

fun sample_kwargs :: "kwargs \<Rightarrow> bytes option" where
  "sample_kwargs [] = Some []"
| "sample_kwargs ((k, v) # kw) =
     (case sample_kwarg v of
        None \<Rightarrow> None
      | Some b \<Rightarrow> (case sample_kwargs kw of None \<Rightarrow> None | Some bs \<Rightarrow> Some (b # bs)))"

fun sample_header :: "response_ref \<Rightarrow> byte \<Rightarrow> bytes" where
  "sample_header Positive_first sid = [sid + 0x40]"
| "sample_header (Positive_named n) sid = [sid + 0x40]"
| "sample_header Negative_first sid = [0x7F, sid]"
| "sample_header (Negative_named n) sid = [0x7F, sid]"

definition sample_encode :: "string \<Rightarrow> response_ref \<Rightarrow> bytes \<Rightarrow> kwargs \<Rightarrow> exn + bytes" where
  "sample_encode svc r coded_request kw =
     (case coded_request of
        [] \<Rightarrow> Inl EncodeError
      | sid # _ \<Rightarrow>
          (case sample_kwargs kw of
             None \<Rightarrow> Inl EncodeError
           | Some bs \<Rightarrow> Inr (sample_header r sid @ bs)))"

definition sample_catalog :: catalog where
  "sample_catalog = \<lparr>decode = sample_decode, encode = sample_encode\<rparr>"

definition sample_env :: env where
  "sample_env = \<lparr>transport = [], ecu_log = [], random = sconst 5000\<rparr>"

text \<open>Two servers and a decoded request used in the concrete runs: the server of the
  source with its session open, and the message the sample layer decodes from the
  frame \<open>0x22\<close>.\<close>

definition open_server :: server where
  "open_server = init\<lparr>diag_session_open := True\<rparr>"

definition report_status_request :: message where
  "report_status_request = sample_message ''report_status'' [0x22] Map.empty"

section \<open>Properties\<close>

subsection \<open>What a response and a flip leave behind\<close>

lemma respond_server: "respond cat m r kw s e = (x, s', e') \<Longrightarrow> s' = s"
  by (auto simp: respond_def split: sum.splits)

lemma respond_env:
  "respond cat m r kw s e = (x, s', e') \<Longrightarrow>
     random e' = random e \<and> ecu_log e' = ecu_log e \<and>
     (x = None \<longrightarrow> (\<exists>p. transport e' = transport e @ [p])) \<and>
     (x \<noteq> None \<longrightarrow> transport e' = transport e)"
  by (auto simp: respond_def transport_write_def split: sum.splits)

lemma flips_loop_server:
  "flips_loop cat m i n s e = (x, s', e') \<Longrightarrow>
     diag_session_open s' = diag_session_open s \<and>
     data_receive_event s' = data_receive_event s \<and>
     max_dizziness_level s' = max_dizziness_level s \<and>
     dizziness_level s \<le> dizziness_level s' \<and>
     dizziness_level s' - dizziness_level s \<le> max 0 (n - i)"
proof (induction cat m i n s e rule: flips_loop.induct)
  case (1 cat m i n s e)
  show ?case
  proof (cases "i < n")
    case False
    with "1.prems" have "respond cat m (Positive_named ''grudging_forward'') [] s e = (x, s', e')"
      by (simp add: flips_loop.simps [of cat m i n s e])
    then have "s' = s" by (rule respond_server)
    then show ?thesis by simp
  next
    case True
    show ?thesis
    proof (cases "fst (randrange e) < 100")
      case stumble: True
      with True "1.prems" have "s' = s"
        by (simp add: flips_loop.simps [of cat m i n s e] respond_server)
      with True show ?thesis by simp
    next
      case steady: False
      with True "1.prems"
      have "flips_loop cat m (i + 1) n (s\<lparr>dizziness_level := dizziness_level s + 1\<rparr>)
              (snd (randrange e)) = (x, s', e')"
        by (simp add: flips_loop.simps [of cat m i n s e])
      from "1.IH" [OF True steady this] True show ?thesis by simp
    qed
  qed
qed

lemma flips_loop_env:
  "flips_loop cat m i n s e = (x, s', e') \<Longrightarrow>
     ecu_log e' = ecu_log e \<and>
     (x = None \<longrightarrow> (\<exists>p. transport e' = transport e @ [p])) \<and>
     (x \<noteq> None \<longrightarrow> transport e' = transport e)"
proof (induction cat m i n s e rule: flips_loop.induct)
  case (1 cat m i n s e)
  show ?case
  proof (cases "i < n")
    case False
    with "1.prems" have "respond cat m (Positive_named ''grudging_forward'') [] s e = (x, s', e')"
      by (simp add: flips_loop.simps [of cat m i n s e])
    from respond_env [OF this] show ?thesis by simp
  next
    case True
    show ?thesis
    proof (cases "fst (randrange e) < 100")
      case stumble: True
      with True "1.prems"
      have "respond cat m (Negative_named ''flips_not_done'')
              [(''reason'', Int_arg 2), (''flips_successfully_done'', Int_arg i)]
              s (snd (randrange e)) = (x, s', e')"
        by (simp add: flips_loop.simps [of cat m i n s e])
      from respond_env [OF this] show ?thesis by (simp add: randrange_def)
    next
      case steady: False
      with True "1.prems"
      have "flips_loop cat m (i + 1) n (s\<lparr>dizziness_level := dizziness_level s + 1\<rparr>)
              (snd (randrange e)) = (x, s', e')"
        by (simp add: flips_loop.simps [of cat m i n s e])
      from "1.IH" [OF True steady this] show ?thesis by (simp add: randrange_def)
    qed
  qed
qed

lemma flip_server:
  assumes "handle_forward_flip_request cat m s e = (x, s', e')"
  shows "diag_session_open s' = diag_session_open s \<and>
     data_receive_event s' = data_receive_event s \<and>
     max_dizziness_level s' = max_dizziness_level s \<and>
     (dizziness_level s \<le> max_dizziness_level s \<longrightarrow>
        dizziness_level s \<le> dizziness_level s' \<and> dizziness_level s' \<le> max_dizziness_level s)"
proof (cases "getitem (param_dict m) ''forward_soberness_check''")
  case (Inl k)
  with assms show ?thesis by (simp add: handle_forward_flip_request_def)
next
  case check: (Inr c)
  show ?thesis
  proof (cases "getitem (param_dict m) ''num_flips''")
    case (Inl k)
    with check assms show ?thesis by (simp add: handle_forward_flip_request_def)
  next
    case num: (Inr n)
    consider (not_sober) "c \<noteq> 0x12"
      | (too_dizzy) "c = 0x12" "dizziness_level s + n > max_dizziness_level s"
      | (flips) "c = 0x12" "\<not> dizziness_level s + n > max_dizziness_level s"
      by blast
    then show ?thesis
    proof cases
      case not_sober
      with check num assms have "s' = s"
        by (simp add: handle_forward_flip_request_def respond_server)
      then show ?thesis by simp
    next
      case too_dizzy
      with check num assms show ?thesis
        by (auto simp: handle_forward_flip_request_def split: sum.splits)
    next
      case flips
      with check num assms have "flips_loop cat m 0 n s e = (x, s', e')"
        by (simp add: handle_forward_flip_request_def)
      from flips_loop_server [OF this] flips show ?thesis by auto
    qed
  qed
qed

lemma flip_env:
  assumes "handle_forward_flip_request cat m s e = (x, s', e')"
  shows "ecu_log e' = ecu_log e \<and>
     (x = None \<longrightarrow> (\<exists>p. transport e' = transport e @ [p])) \<and>
     (x \<noteq> None \<longrightarrow> transport e' = transport e)"
proof (cases "getitem (param_dict m) ''forward_soberness_check''")
  case (Inl k)
  with assms show ?thesis by (auto simp: handle_forward_flip_request_def)
next
  case check: (Inr c)
  show ?thesis
  proof (cases "getitem (param_dict m) ''num_flips''")
    case (Inl k)
    with check assms show ?thesis by (auto simp: handle_forward_flip_request_def)
  next
    case num: (Inr n)
    consider (not_sober) "c \<noteq> 0x12"
      | (too_dizzy) "c = 0x12" "dizziness_level s + n > max_dizziness_level s"
      | (flips) "c = 0x12" "\<not> dizziness_level s + n > max_dizziness_level s"
      by blast
    then show ?thesis
    proof cases
      case not_sober
      with check num assms
      have "respond cat m (Negative_named ''flips_not_done'')
              [(''reason'', Int_arg 0), (''flips_successfully_done'', Int_arg 0)] s e = (x, s', e')"
        by (simp add: handle_forward_flip_request_def)
      from respond_env [OF this] show ?thesis by simp
    next
      case too_dizzy
      with check num assms show ?thesis
        by (auto simp: handle_forward_flip_request_def transport_write_def split: sum.splits)
    next
      case flips
      with check num assms have "flips_loop cat m 0 n s e = (x, s', e')"
        by (simp add: handle_forward_flip_request_def)
      from flips_loop_env [OF this] show ?thesis by simp
    qed
  qed
qed

subsection \<open>What the dispatcher and the receive callback leave behind\<close>

lemma handle_request_server:
  assumes "handle_request cat m s e = (x, s', e')"
  shows "data_receive_event s' = data_receive_event s \<and>
     max_dizziness_level s' = max_dizziness_level s \<and>
     (dizziness_level s \<le> max_dizziness_level s \<longrightarrow>
        dizziness_level s \<le> dizziness_level s' \<and> dizziness_level s' \<le> max_dizziness_level s) \<and>
     (service_short_name m \<noteq> ''do_forward_flips'' \<longrightarrow> dizziness_level s' = dizziness_level s)"
proof (cases "diag_session_open s \<and> service_short_name m = ''do_forward_flips''")
  case True
  with assms
  have "handle_forward_flip_request cat m s
          (ecu_logger (Info_received_message (service_short_name m)) e) = (x, s', e')"
    by (simp add: handle_request_def)
  from flip_server [OF this] True show ?thesis by simp
next
  case False
  with assms show ?thesis
    by (auto simp: handle_request_def Let_def dest: respond_server split: if_splits sum.splits)
qed

lemma handle_request_env:
  assumes "handle_request cat m s e = (x, s', e')"
  shows "(x \<noteq> None \<longrightarrow> transport e' = transport e) \<and>
     (x = None \<longrightarrow> transport e' = transport e \<or> (\<exists>p. transport e' = transport e @ [p])) \<and>
     (x = None \<and> (\<not> diag_session_open s \<or>
         service_short_name m \<in> {''tester_present'', ''session_start'', ''session_stop'',
                                    ''do_forward_flips''}) \<longrightarrow>
        (\<exists>p. transport e' = transport e @ [p])) \<and>
     (diag_session_open s \<and>
         service_short_name m \<notin> {''tester_present'', ''session_start'', ''session_stop'',
                                    ''do_forward_flips''} \<longrightarrow>
        x = None \<and> transport e' = transport e)"
proof (cases "diag_session_open s \<and> service_short_name m = ''do_forward_flips''")
  case True
  with assms
  have "handle_forward_flip_request cat m s
          (ecu_logger (Info_received_message (service_short_name m)) e) = (x, s', e')"
    by (simp add: handle_request_def)
  from flip_env [OF this] True show ?thesis by (auto simp: ecu_logger_def)
next
  case False
  with assms show ?thesis
    by (auto simp: handle_request_def Let_def ecu_logger_def transport_write_def
             dest!: respond_env split: if_splits sum.splits)
qed

lemma data_received_server:
  assumes "data_received cat data s e = (x, s', e')"
  shows "data_receive_event s' \<and>
     max_dizziness_level s' = max_dizziness_level s \<and>
     (dizziness_level s \<le> max_dizziness_level s \<longrightarrow>
        dizziness_level s \<le> dizziness_level s' \<and> dizziness_level s' \<le> max_dizziness_level s)"
proof (cases "decode cat data")
  case (Inl k)
  with assms show ?thesis
    by (auto simp: data_received_def Let_def except_DecodeError_def split: if_splits)
next
  case (Inr ms)
  show ?thesis
  proof (cases "length ms \<noteq> 1")
    case True
    with Inr assms show ?thesis
      by (auto simp: data_received_def Let_def except_DecodeError_def split: if_splits)
  next
    case False
    obtain y t f where h: "handle_request cat (hd ms) (s\<lparr>data_receive_event := True\<rparr>)
         (ecu_logger (Debug_data_received data) e) = (y, t, f)"
      by (cases "handle_request cat (hd ms) (s\<lparr>data_receive_event := True\<rparr>)
         (ecu_logger (Debug_data_received data) e)") auto
    with False Inr assms have "s' = t"
      by (auto simp: data_received_def Let_def except_DecodeError_def split: if_splits)
    with handle_request_server [OF h] show ?thesis by simp
  qed
qed

subsection \<open>What the supervisor and a run of the endpoint leave behind\<close>

lemma close_diag_session_eq: "close_diag_session s = s\<lparr>diag_session_open := False\<rparr>"
  by (cases s) (simp add: close_diag_session_def)

lemma run_iteration_server:
  "run_iteration w s = Some s' \<Longrightarrow>
     dizziness_level s' = dizziness_level s \<and> max_dizziness_level s' = max_dizziness_level s"
  by (cases w) (auto simp: close_diag_session_eq)

lemma endpoint_step_server:
  assumes "endpoint_step cat (s, e) ev = (s', e')"
  shows "max_dizziness_level s' = max_dizziness_level s \<and>
     (dizziness_level s \<le> max_dizziness_level s \<longrightarrow>
        dizziness_level s \<le> dizziness_level s' \<and> dizziness_level s' \<le> max_dizziness_level s)"
proof (cases ev)
  case (Frame data)
  obtain x where "data_received cat data s e = (x, s', e')"
    using assms Frame by (cases "data_received cat data s e") auto
  from data_received_server [OF this] show ?thesis by simp
next
  case (Wait_ended w)
  with assms show ?thesis
    by (auto split: if_splits option.splits dest: run_iteration_server)
qed

lemma endpoint_run_server:
  assumes "dizziness_level s \<le> max_dizziness_level s"
  shows "max_dizziness_level (fst (endpoint_run cat (s, e) evs)) = max_dizziness_level s \<and>
     dizziness_level s \<le> dizziness_level (fst (endpoint_run cat (s, e) evs)) \<and>
     dizziness_level (fst (endpoint_run cat (s, e) evs)) \<le> max_dizziness_level s"
proof (induction evs rule: rev_induct)
  case Nil
  from assms show ?case by (simp add: endpoint_run_def)
next
  case (snoc ev evs)
  obtain t f where mid: "endpoint_run cat (s, e) evs = (t, f)"
    by (cases "endpoint_run cat (s, e) evs") auto
  obtain t' f' where last: "endpoint_step cat (t, f) ev = (t', f')"
    by (cases "endpoint_step cat (t, f) ev") auto
  from mid last have run: "endpoint_run cat (s, e) (evs @ [ev]) = (t', f')"
    by (simp add: endpoint_run_def)
  from snoc mid endpoint_step_server [OF last] run show ?case by simp
qed

lemma endpoint_run_append:
  "endpoint_run cat st (evs @ evs') = endpoint_run cat (endpoint_run cat st evs) evs'"
  by (simp add: endpoint_run_def)

subsection \<open>The dizziness counter stays within its bounds\<close>

text \<open>
  C1. In every state the endpoint reaches from its initial state (session closed,
  dizziness 0, bound \<open>c\<close> with \<open>0 \<le> c\<close>), after any sequence of received frames and
  supervisor wake-ups and for any diagnostic layer, \<open>0 \<le> dizziness \<le> max_dizziness\<close>
  holds and the bound is still \<open>c\<close>; and each operation that touches the state (the
  dispatcher, the flip, the supervisor's close, the receive callback, one step of the
  endpoint) takes a state with the invariant to a state with the invariant. Nothing is
  assumed about the decoded step counts, so the statement covers the nonnegative ones.
\<close>

theorem dizziness_invariant:
  "(0 \<le> c \<longrightarrow>
      dizziness_ok (fst (endpoint_run cat (new_server c, e) evs)) \<and>
      max_dizziness_level (fst (endpoint_run cat (new_server c, e) evs)) = c) \<and>
   (dizziness_ok s \<longrightarrow>
      dizziness_ok (fst (snd (handle_request cat m s e))) \<and>
      dizziness_ok (fst (snd (handle_forward_flip_request cat m s e))) \<and>
      dizziness_ok (close_diag_session s) \<and>
      dizziness_ok (fst (snd (data_received cat data s e))) \<and>
      dizziness_ok (fst (endpoint_step cat (s, e) ev)))"
proof -
  have run: "dizziness_ok (fst (endpoint_run cat (new_server c, e) evs)) \<and>
      max_dizziness_level (fst (endpoint_run cat (new_server c, e) evs)) = c" if "0 \<le> c"
  proof -
    from that have "dizziness_level (new_server c) \<le> max_dizziness_level (new_server c)"
      by (simp add: new_server_def)
    from endpoint_run_server [OF this, of cat e evs] show ?thesis
      by (simp add: dizziness_ok_def new_server_def)
  qed
  have ops: "dizziness_ok (fst (snd (handle_request cat m s e))) \<and>
      dizziness_ok (fst (snd (handle_forward_flip_request cat m s e))) \<and>
      dizziness_ok (close_diag_session s) \<and>
      dizziness_ok (fst (snd (data_received cat data s e))) \<and>
      dizziness_ok (fst (endpoint_step cat (s, e) ev))" if ok: "dizziness_ok s"
  proof -
    obtain x1 s1 e1 where h1: "handle_request cat m s e = (x1, s1, e1)"
      by (cases "handle_request cat m s e") auto
    obtain x2 s2 e2 where h2: "handle_forward_flip_request cat m s e = (x2, s2, e2)"
      by (cases "handle_forward_flip_request cat m s e") auto
    obtain x3 s3 e3 where h3: "data_received cat data s e = (x3, s3, e3)"
      by (cases "data_received cat data s e") auto
    obtain s4 e4 where h4: "endpoint_step cat (s, e) ev = (s4, e4)"
      by (cases "endpoint_step cat (s, e) ev") auto
    from ok handle_request_server [OF h1] have "dizziness_ok s1"
      by (simp add: dizziness_ok_def)
    moreover from ok flip_server [OF h2] have "dizziness_ok s2"
      by (simp add: dizziness_ok_def)
    moreover from ok have "dizziness_ok (close_diag_session s)"
      by (simp add: dizziness_ok_def close_diag_session_eq)
    moreover from ok data_received_server [OF h3] have "dizziness_ok s3"
      by (simp add: dizziness_ok_def)
    moreover from ok endpoint_step_server [OF h4] have "dizziness_ok s4"
      by (simp add: dizziness_ok_def)
    ultimately show ?thesis by (simp add: h1 h2 h3 h4)
  qed
  from run ops show ?thesis by blast
qed

theorem dizziness_invariant_witness:
  "(0::int) \<le> 10 \<and>
   dizziness_ok (fst (endpoint_run sample_catalog (new_server 10, sample_env)
         [Frame [0x10], Frame [0xBA, 0x12, 3], Frame [0xBA, 0x12, 50], Wait_ended Wait_returned,
          Wait_ended TimeoutError])) \<and>
   dizziness_ok (init\<lparr>dizziness_level := 9\<rparr>) \<and>
   dizziness_ok (fst (snd (handle_forward_flip_request sample_catalog
         (sample_message ''do_forward_flips'' [0xBA, 0x12, 5]
            [''forward_soberness_check'' \<mapsto> 0x12, ''num_flips'' \<mapsto> 5])
         (init\<lparr>dizziness_level := 9\<rparr>) sample_env)))"
  using dizziness_invariant [where c = 10 and cat = sample_catalog and e = sample_env
      and evs = "[Frame [0x10], Frame [0xBA, 0x12, 3], Frame [0xBA, 0x12, 50],
                  Wait_ended Wait_returned, Wait_ended TimeoutError]"
      and s = "init\<lparr>dizziness_level := 9\<rparr>"
      and m = "sample_message ''do_forward_flips'' [0xBA, 0x12, 5]
            [''forward_soberness_check'' \<mapsto> 0x12, ''num_flips'' \<mapsto> 5]"
      and data = "[0x3E]" and ev = "Frame [0x3E]"]
  by (simp add: dizziness_ok_def init_def new_server_def)

subsection \<open>The dizziness counter never decreases\<close>

text \<open>
  C9. The dizziness counter never decreases. From a state within its bound (every
  reachable state, by the invariant) the receive callback, the dispatcher, the flip and
  one step of the endpoint leave it at least as large; closing the session, by the
  supervisor's timeout or otherwise, changes the open flag and nothing else; no
  iteration of the supervisor and no request other than a flip changes the counter at
  all (so a stop-session followed by a start-session carries it over), and a
  stop-session request changes at most the open flag of the server; and along any run
  of the endpoint from its initial state a longer run never has a smaller counter.
\<close>

theorem dizziness_never_decreases:
  "(dizziness_level s \<le> max_dizziness_level s \<longrightarrow>
      dizziness_level s \<le> dizziness_level (fst (snd (handle_request cat m s e))) \<and>
      dizziness_level s \<le> dizziness_level (fst (snd (handle_forward_flip_request cat m s e))) \<and>
      dizziness_level s \<le> dizziness_level (fst (snd (data_received cat data s e))) \<and>
      dizziness_level s \<le> dizziness_level (fst (endpoint_step cat (s, e) ev))) \<and>
   close_diag_session s = s\<lparr>diag_session_open := False\<rparr> \<and>
   dizziness_level (close_diag_session s) = dizziness_level s \<and>
   (\<forall>s'. run_iteration w s = Some s' \<longrightarrow> dizziness_level s' = dizziness_level s) \<and>
   (service_short_name m \<noteq> ''do_forward_flips'' \<longrightarrow>
      dizziness_level (fst (snd (handle_request cat m s e))) = dizziness_level s) \<and>
   (service_short_name m = ''session_stop'' \<longrightarrow>
      fst (snd (handle_request cat m s e)) = s \<or>
      fst (snd (handle_request cat m s e)) = s\<lparr>diag_session_open := False\<rparr>) \<and>
   (0 \<le> c \<longrightarrow>
      dizziness_level (fst (endpoint_run cat (new_server c, e) evs))
        \<le> dizziness_level (fst (endpoint_run cat (new_server c, e) (evs @ evs'))))"
proof -
  obtain x1 s1 e1 where h1: "handle_request cat m s e = (x1, s1, e1)"
    by (cases "handle_request cat m s e") auto
  obtain x2 s2 e2 where h2: "handle_forward_flip_request cat m s e = (x2, s2, e2)"
    by (cases "handle_forward_flip_request cat m s e") auto
  obtain x3 s3 e3 where h3: "data_received cat data s e = (x3, s3, e3)"
    by (cases "data_received cat data s e") auto
  obtain s4 e4 where h4: "endpoint_step cat (s, e) ev = (s4, e4)"
    by (cases "endpoint_step cat (s, e) ev") auto
  have ops: "dizziness_level s \<le> dizziness_level (fst (snd (handle_request cat m s e))) \<and>
      dizziness_level s \<le> dizziness_level (fst (snd (handle_forward_flip_request cat m s e))) \<and>
      dizziness_level s \<le> dizziness_level (fst (snd (data_received cat data s e))) \<and>
      dizziness_level s \<le> dizziness_level (fst (endpoint_step cat (s, e) ev))"
    if "dizziness_level s \<le> max_dizziness_level s"
    using that handle_request_server [OF h1] flip_server [OF h2] data_received_server [OF h3]
      endpoint_step_server [OF h4]
    by (simp add: h1 h2 h3 h4)
  have other: "dizziness_level (fst (snd (handle_request cat m s e))) = dizziness_level s"
    if "service_short_name m \<noteq> ''do_forward_flips''"
    using that handle_request_server [OF h1] by (simp add: h1)
  have run: "dizziness_level (fst (endpoint_run cat (new_server c, e) evs))
        \<le> dizziness_level (fst (endpoint_run cat (new_server c, e) (evs @ evs')))" if "0 \<le> c"
  proof -
    obtain t f where mid: "endpoint_run cat (new_server c, e) evs = (t, f)"
      by (cases "endpoint_run cat (new_server c, e) evs") auto
    from that have "dizziness_level (new_server c) \<le> max_dizziness_level (new_server c)"
      by (simp add: new_server_def)
    from endpoint_run_server [OF this, of cat e evs] mid
    have "dizziness_level t \<le> max_dizziness_level t" by simp
    from endpoint_run_server [OF this, of cat f evs'] mid show ?thesis
      by (simp add: endpoint_run_append)
  qed
  have sup: "\<forall>s'. run_iteration w s = Some s' \<longrightarrow> dizziness_level s' = dizziness_level s"
    by (simp add: run_iteration_server)
  have stop: "fst (snd (handle_request cat m s e)) = s \<or>
      fst (snd (handle_request cat m s e)) = s\<lparr>diag_session_open := False\<rparr>"
    if "service_short_name m = ''session_stop''"
    using that by (simp add: handle_request_def Let_def split: sum.splits)
  from ops other stop run sup show ?thesis
    by (simp add: close_diag_session_eq)
qed

theorem dizziness_never_decreases_witness:
  "dizziness_level (init\<lparr>dizziness_level := 9, diag_session_open := True\<rparr>)
     \<le> max_dizziness_level (init\<lparr>dizziness_level := 9, diag_session_open := True\<rparr>) \<and>
   dizziness_level (init\<lparr>dizziness_level := 9, diag_session_open := True\<rparr>)
     \<le> dizziness_level (fst (snd (data_received sample_catalog [0xBA, 0x12, 5]
           (init\<lparr>dizziness_level := 9, diag_session_open := True\<rparr>) sample_env))) \<and>
   run_iteration TimeoutError (init\<lparr>dizziness_level := 9, diag_session_open := True\<rparr>)
     = Some (init\<lparr>dizziness_level := 9, diag_session_open := False\<rparr>) \<and>
   service_short_name (sample_message ''session_stop'' [0x20] Map.empty) \<noteq> ''do_forward_flips'' \<and>
   dizziness_level (fst (snd (handle_request sample_catalog
       (sample_message ''session_stop'' [0x20] Map.empty)
       (init\<lparr>dizziness_level := 9, diag_session_open := True\<rparr>) sample_env))) = 9 \<and>
   (0::int) \<le> 10 \<and>
   dizziness_level (fst (endpoint_run sample_catalog (new_server 10, sample_env)
        [Frame [0x10], Frame [0xBA, 0x12, 3]]))
     \<le> dizziness_level (fst (endpoint_run sample_catalog (new_server 10, sample_env)
        ([Frame [0x10], Frame [0xBA, 0x12, 3]] @ [Frame [0x20], Wait_ended TimeoutError])))"
  using dizziness_never_decreases [where s = "init\<lparr>dizziness_level := 9, diag_session_open := True\<rparr>"
      and cat = sample_catalog and e = sample_env and data = "[0xBA, 0x12, 5]"
      and m = "sample_message ''session_stop'' [0x20] Map.empty" and ev = "Frame [0x3E]"
      and w = TimeoutError and c = 10 and evs = "[Frame [0x10], Frame [0xBA, 0x12, 3]]"
      and evs' = "[Frame [0x20], Wait_ended TimeoutError]"]
  by (simp add: init_def new_server_def sample_message_def)

subsection \<open>Inbound traffic and the idle signal\<close>





subsection \<open>The flip, branch by branch\<close>

lemma flip_params:
  "param_dict m ''forward_soberness_check'' = Some c \<Longrightarrow>
   param_dict m ''num_flips'' = Some n \<Longrightarrow>
   handle_forward_flip_request cat m s e =
     (if c \<noteq> 0x12 then
        respond cat m (Negative_named ''flips_not_done'')
          [(''reason'', Int_arg 0), (''flips_successfully_done'', Int_arg 0)] s e
      else if dizziness_level s + n > max_dizziness_level s then
        (case encode_response cat m (Negative_named ''flips_not_done'')
                [(''reason'', Int_arg 1),
                 (''flips_successfully_done'',
                    Int_arg (max_dizziness_level s - dizziness_level s))] of
           Inl x \<Rightarrow> (Some x, s, e)
         | Inr response_data \<Rightarrow>
             (None, s\<lparr>dizziness_level := max_dizziness_level s\<rparr>,
              transport_write response_data e))
      else flips_loop cat m 0 n s e)"
  by (simp add: handle_forward_flip_request_def getitem_def)

lemma flips_loop_stumble:
  "\<forall>j<k. 100 \<le> random e !! j \<Longrightarrow> random e !! k < 100 \<Longrightarrow> i + int k < n \<Longrightarrow>
   flips_loop cat m i n s e =
     respond cat m (Negative_named ''flips_not_done'')
       [(''reason'', Int_arg 2), (''flips_successfully_done'', Int_arg (i + int k))]
       (s\<lparr>dizziness_level := dizziness_level s + int k\<rparr>)
       (e\<lparr>random := sdrop (Suc k) (random e)\<rparr>)"
proof (induction k arbitrary: i s e)
  case 0
  then show ?case
    by (simp add: flips_loop.simps [of cat m i n s e] randrange_def)
next
  case (Suc k)
  let ?s = "s\<lparr>dizziness_level := dizziness_level s + 1\<rparr>"
  let ?e = "snd (randrange e)"
  from Suc.prems(1) have first: "\<not> shd (random e) < 100" by force
  from Suc.prems(1) have rest: "\<forall>j<k. 100 \<le> random ?e !! j"
    by (auto simp: randrange_def)
  from Suc.prems(2) have hit: "random ?e !! k < 100" by (simp add: randrange_def)
  from Suc.prems(3) have lt: "i < n" and bound: "(i + 1) + int k < n" by simp_all
  from first lt have "flips_loop cat m i n s e = flips_loop cat m (i + 1) n ?s ?e"
    by (simp add: flips_loop.simps [of cat m i n s e] randrange_def)
  also from Suc.IH [OF rest hit bound]
  have "\<dots> = respond cat m (Negative_named ''flips_not_done'')
       [(''reason'', Int_arg 2), (''flips_successfully_done'', Int_arg ((i + 1) + int k))]
       (?s\<lparr>dizziness_level := dizziness_level ?s + int k\<rparr>)
       (?e\<lparr>random := sdrop (Suc k) (random ?e)\<rparr>)" .
  finally show ?case by (simp add: randrange_def ac_simps)
qed

lemma flips_loop_all:
  "\<forall>j<k. 100 \<le> random e !! j \<Longrightarrow> i + int k = n \<Longrightarrow>
   flips_loop cat m i n s e =
     respond cat m (Positive_named ''grudging_forward'') []
       (s\<lparr>dizziness_level := dizziness_level s + int k\<rparr>)
       (e\<lparr>random := sdrop k (random e)\<rparr>)"
proof (induction k arbitrary: i s e)
  case 0
  then show ?case
    by (simp add: flips_loop.simps [of cat m n n s e])
next
  case (Suc k)
  let ?s = "s\<lparr>dizziness_level := dizziness_level s + 1\<rparr>"
  let ?e = "snd (randrange e)"
  from Suc.prems(1) have first: "\<not> shd (random e) < 100" by force
  from Suc.prems(1) have rest: "\<forall>j<k. 100 \<le> random ?e !! j"
    by (auto simp: randrange_def)
  from Suc.prems(2) have lt: "i < n" and bound: "(i + 1) + int k = n" by simp_all
  from first lt have "flips_loop cat m i n s e = flips_loop cat m (i + 1) n ?s ?e"
    by (simp add: flips_loop.simps [of cat m i n s e] randrange_def)
  also from Suc.IH [OF rest bound]
  have "\<dots> = respond cat m (Positive_named ''grudging_forward'') []
       (?s\<lparr>dizziness_level := dizziness_level ?s + int k\<rparr>)
       (?e\<lparr>random := sdrop k (random ?e)\<rparr>)" .
  finally show ?case by (simp add: randrange_def ac_simps)
qed

subsection \<open>Stumbling and succeeding\<close>

text \<open>
  C2. A flip call with the accepted soberness code whose \<open>n\<close> steps fit under the bound
  runs its steps in order, one random draw each. If draw \<open>k\<close> (\<open>k < n\<close>) is the first one
  below the threshold 100, the call answers \<open>flips_not_done\<close> with reason 2 (stumbled)
  and \<open>flips_successfully_done = k\<close>, from a state whose dizziness is the old one plus
  \<open>k\<close> (not the bound), having consumed exactly \<open>k + 1\<close> draws. If none of the first
  \<open>n\<close> draws is below the threshold, it answers \<open>grudging_forward\<close> and dizziness has
  grown by \<open>n\<close>. The answer is the encoded response written to the transport; should the
  diagnostic layer fail to encode it, its exception leaves the call from that same state.
\<close>

theorem flip_stumble_or_success:
  assumes "param_dict m ''forward_soberness_check'' = Some 0x12"
    and "param_dict m ''num_flips'' = Some (int n)"
    and "\<not> dizziness_level s + int n > max_dizziness_level s"
  shows "(k < n \<and> (\<forall>j<k. 100 \<le> random e !! j) \<and> random e !! k < 100 \<longrightarrow>
      handle_forward_flip_request cat m s e =
        respond cat m (Negative_named ''flips_not_done'')
          [(''reason'', Int_arg 2), (''flips_successfully_done'', Int_arg (int k))]
          (s\<lparr>dizziness_level := dizziness_level s + int k\<rparr>)
          (e\<lparr>random := sdrop (Suc k) (random e)\<rparr>) \<and>
      fst (snd (handle_forward_flip_request cat m s e)) =
        s\<lparr>dizziness_level := dizziness_level s + int k\<rparr> \<and>
      random (snd (snd (handle_forward_flip_request cat m s e))) = sdrop (Suc k) (random e)) \<and>
   ((\<forall>j<n. 100 \<le> random e !! j) \<longrightarrow>
      handle_forward_flip_request cat m s e =
        respond cat m (Positive_named ''grudging_forward'') []
          (s\<lparr>dizziness_level := dizziness_level s + int n\<rparr>)
          (e\<lparr>random := sdrop n (random e)\<rparr>) \<and>
      fst (snd (handle_forward_flip_request cat m s e)) =
        s\<lparr>dizziness_level := dizziness_level s + int n\<rparr> \<and>
      random (snd (snd (handle_forward_flip_request cat m s e))) = sdrop n (random e))"
proof -
  have loop: "handle_forward_flip_request cat m s e = flips_loop cat m 0 (int n) s e"
    using assms by (simp add: flip_params)
  have after: "fst (snd (respond cat m r kw t f)) = t \<and>
      random (snd (snd (respond cat m r kw t f))) = random f" for r kw t f
    by (simp add: respond_def transport_write_def split: sum.splits)
  have stumble: "handle_forward_flip_request cat m s e =
        respond cat m (Negative_named ''flips_not_done'')
          [(''reason'', Int_arg 2), (''flips_successfully_done'', Int_arg (int k))]
          (s\<lparr>dizziness_level := dizziness_level s + int k\<rparr>)
          (e\<lparr>random := sdrop (Suc k) (random e)\<rparr>)"
    if "k < n" and "\<forall>j<k. 100 \<le> random e !! j" and "random e !! k < 100"
  proof -
    from that(1) have "0 + int k < int n" by simp
    from flips_loop_stumble [OF that(2) that(3) this, of cat m s] loop show ?thesis by simp
  qed
  have success: "handle_forward_flip_request cat m s e =
        respond cat m (Positive_named ''grudging_forward'') []
          (s\<lparr>dizziness_level := dizziness_level s + int n\<rparr>)
          (e\<lparr>random := sdrop n (random e)\<rparr>)"
    if "\<forall>j<n. 100 \<le> random e !! j"
  proof -
    have "0 + int n = int n" by simp
    from flips_loop_all [OF that this, of cat m s] loop show ?thesis by simp
  qed
  from stumble success show ?thesis
    by (auto simp: after)
qed

theorem flip_stumble_or_success_witness:
  "param_dict (sample_message ''do_forward_flips'' [0xBA, 0x12, 5]
       [''forward_soberness_check'' \<mapsto> 0x12, ''num_flips'' \<mapsto> 5]) ''forward_soberness_check''
     = Some 0x12 \<and>
   \<not> dizziness_level (init\<lparr>dizziness_level := 2\<rparr>) + int 5
       > max_dizziness_level (init\<lparr>dizziness_level := 2\<rparr>) \<and>
   (5000 ## 5000 ## 50 ## sconst 5000) !! 2 < (100::int) \<and>
   handle_forward_flip_request sample_catalog
     (sample_message ''do_forward_flips'' [0xBA, 0x12, 5]
       [''forward_soberness_check'' \<mapsto> 0x12, ''num_flips'' \<mapsto> 5])
     (init\<lparr>dizziness_level := 2\<rparr>) (sample_env\<lparr>random := 5000 ## 5000 ## 50 ## sconst 5000\<rparr>)
   = (None, init\<lparr>dizziness_level := 4\<rparr>,
      sample_env\<lparr>transport := [[0x7F, 0xBA, 2, 2]]\<rparr>) \<and>
   handle_forward_flip_request sample_catalog
     (sample_message ''do_forward_flips'' [0xBA, 0x12, 5]
       [''forward_soberness_check'' \<mapsto> 0x12, ''num_flips'' \<mapsto> 5])
     (init\<lparr>dizziness_level := 2\<rparr>) sample_env
   = (None, init\<lparr>dizziness_level := 7\<rparr>, sample_env\<lparr>transport := [[0xFA]]\<rparr>)"
proof -
  let ?m = "sample_message ''do_forward_flips'' [0xBA, 0x12, 5]
       [''forward_soberness_check'' \<mapsto> 0x12, ''num_flips'' \<mapsto> 5]"
  let ?s = "init\<lparr>dizziness_level := 2\<rparr>"
  let ?e = "sample_env\<lparr>random := 5000 ## 5000 ## 50 ## sconst 5000\<rparr>"
  have check: "param_dict ?m ''forward_soberness_check'' = Some 0x12"
    by (simp add: sample_message_def)
  have num: "param_dict ?m ''num_flips'' = Some (int 5)"
    by (simp add: sample_message_def)
  have fits: "\<not> dizziness_level ?s + int 5 > max_dizziness_level ?s"
    by (simp add: init_def new_server_def)
  have before: "\<forall>j<2. (100::int) \<le> random ?e !! j"
    by (simp add: numeral_2_eq_2 All_less_Suc)
  have hit: "random ?e !! 2 < (100::int)"
    by (simp add: numeral_2_eq_2)
  have none: "\<forall>j<5. (100::int) \<le> random sample_env !! j"
    by (simp add: sample_env_def)
  from flip_stumble_or_success [OF check num fits, of 2 ?e sample_catalog] before hit
  have "handle_forward_flip_request sample_catalog ?m ?s ?e =
        respond sample_catalog ?m (Negative_named ''flips_not_done'')
          [(''reason'', Int_arg 2), (''flips_successfully_done'', Int_arg (int 2))]
          (?s\<lparr>dizziness_level := dizziness_level ?s + int 2\<rparr>)
          (?e\<lparr>random := sdrop (Suc 2) (random ?e)\<rparr>)"
    by simp
  moreover
  from flip_stumble_or_success [OF check num fits, of 0 sample_env sample_catalog] none
  have "handle_forward_flip_request sample_catalog ?m ?s sample_env =
        respond sample_catalog ?m (Positive_named ''grudging_forward'') []
          (?s\<lparr>dizziness_level := dizziness_level ?s + int 5\<rparr>)
          (sample_env\<lparr>random := sdrop 5 (random sample_env)\<rparr>)"
    by simp
  ultimately show ?thesis
    using check fits hit
    by (simp add: respond_def encode_response_def sample_catalog_def sample_encode_def
          sample_message_def sample_env_def init_def new_server_def transport_write_def
          numeral_2_eq_2 numeral_3_eq_3)
qed

subsection \<open>The capacity gate and the soberness gate\<close>

text \<open>
  C3. A flip call with the accepted soberness code and \<open>dizziness + steps > max_dizziness\<close>
  answers \<open>flips_not_done\<close> with reason 1 (too dizzy) and
  \<open>flips_successfully_done = max_dizziness - dizziness\<close>, the number of steps that would
  have fitted; no step is run and no random number is drawn. Once the response is
  encoded it is written and dizziness is set to the bound. (The assignment follows the
  encoding in the source, so an exception of the encoder leaves the call with the state
  untouched.) From dizziness 9 with bound 10, a call for 5 steps reports 1 and leaves
  dizziness at 10.
\<close>

theorem flip_too_dizzy:
  assumes "param_dict m ''forward_soberness_check'' = Some 0x12"
    and "param_dict m ''num_flips'' = Some n"
    and "dizziness_level s + n > max_dizziness_level s"
  shows "handle_forward_flip_request cat m s e =
      (case encode_response cat m (Negative_named ''flips_not_done'')
              [(''reason'', Int_arg 1),
               (''flips_successfully_done'',
                  Int_arg (max_dizziness_level s - dizziness_level s))] of
         Inl x \<Rightarrow> (Some x, s, e)
       | Inr response_data \<Rightarrow>
           (None, s\<lparr>dizziness_level := max_dizziness_level s\<rparr>,
            e\<lparr>transport := transport e @ [response_data]\<rparr>)) \<and>
    (\<forall>response_data.
       encode_response cat m (Negative_named ''flips_not_done'')
         [(''reason'', Int_arg 1),
          (''flips_successfully_done'',
             Int_arg (max_dizziness_level s - dizziness_level s))] = Inr response_data \<longrightarrow>
       handle_forward_flip_request cat m s e =
         (None, s\<lparr>dizziness_level := max_dizziness_level s\<rparr>,
          e\<lparr>transport := transport e @ [response_data]\<rparr>))"
proof -
  have "handle_forward_flip_request cat m s e =
      (case encode_response cat m (Negative_named ''flips_not_done'')
              [(''reason'', Int_arg 1),
               (''flips_successfully_done'',
                  Int_arg (max_dizziness_level s - dizziness_level s))] of
         Inl x \<Rightarrow> (Some x, s, e)
       | Inr response_data \<Rightarrow>
           (None, s\<lparr>dizziness_level := max_dizziness_level s\<rparr>,
            transport_write response_data e))"
    using assms by (simp add: flip_params)
  then show ?thesis
    by (simp add: transport_write_def split: sum.splits)
qed

theorem flip_too_dizzy_witness:
  "param_dict (sample_message ''do_forward_flips'' [0xBA, 0x12, 5]
       [''forward_soberness_check'' \<mapsto> 0x12, ''num_flips'' \<mapsto> 5]) ''num_flips'' = Some 5 \<and>
   dizziness_level (init\<lparr>dizziness_level := 9\<rparr>) + 5
       > max_dizziness_level (init\<lparr>dizziness_level := 9\<rparr>) \<and>
   encode_response sample_catalog
     (sample_message ''do_forward_flips'' [0xBA, 0x12, 5]
       [''forward_soberness_check'' \<mapsto> 0x12, ''num_flips'' \<mapsto> 5])
     (Negative_named ''flips_not_done'')
     [(''reason'', Int_arg 1), (''flips_successfully_done'', Int_arg 1)] = Inr [0x7F, 0xBA, 1, 1] \<and>
   handle_forward_flip_request sample_catalog
     (sample_message ''do_forward_flips'' [0xBA, 0x12, 5]
       [''forward_soberness_check'' \<mapsto> 0x12, ''num_flips'' \<mapsto> 5])
     (init\<lparr>dizziness_level := 9\<rparr>) sample_env
   = (None, init\<lparr>dizziness_level := 10\<rparr>, sample_env\<lparr>transport := [[0x7F, 0xBA, 1, 1]]\<rparr>)"
proof -
  let ?m = "sample_message ''do_forward_flips'' [0xBA, 0x12, 5]
       [''forward_soberness_check'' \<mapsto> 0x12, ''num_flips'' \<mapsto> 5]"
  let ?s = "init\<lparr>dizziness_level := 9\<rparr>"
  have check: "param_dict ?m ''forward_soberness_check'' = Some 0x12"
    by (simp add: sample_message_def)
  have num: "param_dict ?m ''num_flips'' = Some 5"
    by (simp add: sample_message_def)
  have over: "dizziness_level ?s + 5 > max_dizziness_level ?s"
    by (simp add: init_def new_server_def)
  have enc: "encode_response sample_catalog ?m (Negative_named ''flips_not_done'')
     [(''reason'', Int_arg 1), (''flips_successfully_done'', Int_arg 1)] = Inr [0x7F, 0xBA, 1, 1]"
    by (simp add: encode_response_def sample_catalog_def sample_encode_def sample_message_def)
  from flip_too_dizzy [OF check num over, of sample_catalog sample_env] enc
  have "handle_forward_flip_request sample_catalog ?m ?s sample_env
          = (None, ?s\<lparr>dizziness_level := max_dizziness_level ?s\<rparr>,
             sample_env\<lparr>transport := transport sample_env @ [[0x7F, 0xBA, 1, 1]]\<rparr>)"
    by (simp add: init_def new_server_def)
  with num over enc show ?thesis
    by (simp add: init_def new_server_def sample_env_def)
qed

text \<open>
  C8. A flip call whose soberness code is not \<open>0x12\<close> answers \<open>flips_not_done\<close> with
  reason 0 (not sober) and \<open>flips_successfully_done = 0\<close>, whatever the random source
  would return: the server is left exactly as it was and no random number is drawn.
  With the code \<open>0x23\<close> and one step the answer is the same for every random source.
\<close>

theorem flip_not_sober:
  assumes "param_dict m ''forward_soberness_check'' = Some c"
    and "c \<noteq> 0x12"
    and "param_dict m ''num_flips'' = Some n"
  shows "handle_forward_flip_request cat m s e =
      respond cat m (Negative_named ''flips_not_done'')
        [(''reason'', Int_arg 0), (''flips_successfully_done'', Int_arg 0)] s e \<and>
    fst (snd (handle_forward_flip_request cat m s e)) = s \<and>
    random (snd (snd (handle_forward_flip_request cat m s e))) = random e \<and>
    handle_forward_flip_request cat m s (e\<lparr>random := g\<rparr>) =
      (case handle_forward_flip_request cat m s e of (x, s', e') \<Rightarrow> (x, s', e'\<lparr>random := g\<rparr>))"
proof -
  have eq: "handle_forward_flip_request cat m s f =
      respond cat m (Negative_named ''flips_not_done'')
        [(''reason'', Int_arg 0), (''flips_successfully_done'', Int_arg 0)] s f" for f
    using assms by (simp add: flip_params)
  show ?thesis
  proof (cases "encode_response cat m (Negative_named ''flips_not_done'')
        [(''reason'', Int_arg 0), (''flips_successfully_done'', Int_arg 0)]")
    case (Inl x)
    then show ?thesis by (simp add: eq respond_def)
  next
    case (Inr p)
    then show ?thesis by (simp add: eq respond_def transport_write_def)
  qed
qed

theorem flip_not_sober_witness:
  "param_dict (sample_message ''do_forward_flips'' [0xBA, 0x23, 1]
       [''forward_soberness_check'' \<mapsto> 0x23, ''num_flips'' \<mapsto> 1]) ''forward_soberness_check''
     = Some 0x23 \<and>
   (0x23::int) \<noteq> 0x12 \<and>
   handle_forward_flip_request sample_catalog
     (sample_message ''do_forward_flips'' [0xBA, 0x23, 1]
       [''forward_soberness_check'' \<mapsto> 0x23, ''num_flips'' \<mapsto> 1])
     (init\<lparr>diag_session_open := True\<rparr>) (sample_env\<lparr>random := sconst 50\<rparr>)
   = (None, init\<lparr>diag_session_open := True\<rparr>,
      sample_env\<lparr>transport := [[0x7F, 0xBA, 0, 0]], random := sconst 50\<rparr>)"
proof -
  let ?m = "sample_message ''do_forward_flips'' [0xBA, 0x23, 1]
       [''forward_soberness_check'' \<mapsto> 0x23, ''num_flips'' \<mapsto> 1]"
  have check: "param_dict ?m ''forward_soberness_check'' = Some 0x23"
    by (simp add: sample_message_def)
  have num: "param_dict ?m ''num_flips'' = Some 1"
    by (simp add: sample_message_def)
  have differs: "(0x23::int) \<noteq> 0x12" by simp
  from flip_not_sober [OF check differs num, of sample_catalog "init\<lparr>diag_session_open := True\<rparr>"
      "sample_env\<lparr>random := sconst 50\<rparr>" "sconst 50", THEN conjunct1] check
  show ?thesis
    by (simp add: respond_def encode_response_def sample_catalog_def sample_encode_def
          sample_message_def sample_env_def transport_write_def)
qed

subsection \<open>Requests while the session is closed\<close>

lemma handle_request_closed:
  assumes "\<not> diag_session_open s"
    and "service_short_name m \<noteq> ''tester_present''"
    and "service_short_name m \<noteq> ''session_start''"
  shows "handle_request cat m s e =
     (None, s,
      transport_write
        [0x7F, if coded_message m = [] then 0 else hd (coded_message m), 0x7F]
        (ecu_logger (Info_received_message (service_short_name m)) e))"
  using assms by (cases "coded_message m") (simp_all add: handle_request_def)

text \<open>
  C7. While the session is closed, a decoded request for any service other than
  \<open>tester_present\<close> and \<open>session_start\<close> is answered with exactly the three bytes
  \<open>0x7F\<close>, \<open>b\<close>, \<open>0x7F\<close>, where \<open>b\<close> is the first byte of the raw request, or 0 when
  the raw request is empty. The dispatcher returns normally and leaves the server as
  it was. The frame does not come from the diagnostic layer: the outcome is the same
  for every layer, also for one whose encoder always raises.
\<close>

theorem closed_session_generic_negative_frame:
  assumes "\<not> diag_session_open s"
    and "service_short_name m \<noteq> ''tester_present''"
    and "service_short_name m \<noteq> ''session_start''"
  shows "handle_request cat m s e =
      (None, s,
       e\<lparr>ecu_log := ecu_log e @ [Info_received_message (service_short_name m)],
         transport := transport e @
           [[0x7F, if coded_message m = [] then 0 else hd (coded_message m), 0x7F]]\<rparr>) \<and>
    handle_request cat m s e = handle_request cat' m s e"
  using assms
  by (simp add: handle_request_closed transport_write_def ecu_logger_def)

theorem closed_session_generic_negative_frame_witness:
  "\<not> diag_session_open init \<and>
   service_short_name (sample_message ''do_forward_flips'' [0x31, 0x12, 1]
      [''forward_soberness_check'' \<mapsto> 0x12, ''num_flips'' \<mapsto> 1]) \<noteq> ''tester_present'' \<and>
   service_short_name (sample_message ''do_forward_flips'' [0x31, 0x12, 1]
      [''forward_soberness_check'' \<mapsto> 0x12, ''num_flips'' \<mapsto> 1]) \<noteq> ''session_start'' \<and>
   handle_request sample_catalog
     (sample_message ''do_forward_flips'' [0x31, 0x12, 1]
        [''forward_soberness_check'' \<mapsto> 0x12, ''num_flips'' \<mapsto> 1]) init sample_env =
     (None, init,
      sample_env\<lparr>ecu_log := [Info_received_message ''do_forward_flips''],
                 transport := [[0x7F, 0x31, 0x7F]]\<rparr>) \<and>
   handle_request \<lparr>decode = sample_decode, encode = \<lambda>svc r req kw. Inl EncodeError\<rparr>
     (sample_message ''report_status'' [] Map.empty) init sample_env =
     (None, init,
      sample_env\<lparr>ecu_log := [Info_received_message ''report_status''],
                 transport := [[0x7F, 0, 0x7F]]\<rparr>)"
proof -
  let ?m = "sample_message ''do_forward_flips'' [0x31, 0x12, 1]
      [''forward_soberness_check'' \<mapsto> 0x12, ''num_flips'' \<mapsto> 1]"
  let ?m' = "sample_message ''report_status'' [] Map.empty"
  have closed: "\<not> diag_session_open init" by (simp add: init_def new_server_def)
  have a: "service_short_name ?m \<noteq> ''tester_present''" by (simp add: sample_message_def)
  have b: "service_short_name ?m \<noteq> ''session_start''" by (simp add: sample_message_def)
  have a': "service_short_name ?m' \<noteq> ''tester_present''" by (simp add: sample_message_def)
  have b': "service_short_name ?m' \<noteq> ''session_start''" by (simp add: sample_message_def)
  from closed_session_generic_negative_frame [OF closed a b, of sample_catalog sample_env,
      THEN conjunct1]
    closed_session_generic_negative_frame [OF closed a' b',
      of "\<lparr>decode = sample_decode, encode = \<lambda>svc r req kw. Inl EncodeError\<rparr>" sample_env,
      THEN conjunct1]
    closed a b
  show ?thesis
    by (simp add: sample_message_def sample_env_def)
qed

text \<open>
  C5. A \<open>session_stop\<close> request that arrives while the session is closed is answered
  with a negative response (the generic frame \<open>0x7F\<close>, first request byte, \<open>0x7F\<close>,
  which the tester recognises as negative) and leaves the server unchanged: still
  closed, same dizziness. Of two consecutive \<open>session_stop\<close> requests, once the first
  has been answered the session is closed, and the second is answered negatively and
  leaves it closed.
\<close>

theorem stop_session_while_closed:
  assumes "service_short_name m = ''session_stop''"
  shows "(\<not> diag_session_open s \<longrightarrow>
      handle_request cat m s e =
        (None, s,
         e\<lparr>ecu_log := ecu_log e @ [Info_received_message ''session_stop''],
           transport := transport e @
             [[0x7F, if coded_message m = [] then 0 else hd (coded_message m), 0x7F]]\<rparr>) \<and>
      is_negative_response
        [0x7F, if coded_message m = [] then 0 else hd (coded_message m), 0x7F]) \<and>
    (service_short_name m' = ''session_stop'' \<and> handle_request cat m' s0 e0 = (None, s, e) \<longrightarrow>
      \<not> diag_session_open s \<and>
      \<not> diag_session_open (fst (snd (handle_request cat m s e))) \<and>
      dizziness_level (fst (snd (handle_request cat m s e))) = dizziness_level s0 \<and>
      transport (snd (snd (handle_request cat m s e))) = transport e @
        [[0x7F, if coded_message m = [] then 0 else hd (coded_message m), 0x7F]])"
proof -
  have closed: "handle_request cat m s e =
        (None, s,
         e\<lparr>ecu_log := ecu_log e @ [Info_received_message ''session_stop''],
           transport := transport e @
             [[0x7F, if coded_message m = [] then 0 else hd (coded_message m), 0x7F]]\<rparr>)"
    if "\<not> diag_session_open s"
    using that assms by (simp add: handle_request_closed transport_write_def ecu_logger_def)
  have first: "\<not> diag_session_open s \<and> dizziness_level s = dizziness_level s0"
    if "service_short_name m' = ''session_stop''" and "handle_request cat m' s0 e0 = (None, s, e)"
    using that
    by (auto simp: handle_request_def Let_def split: if_splits sum.splits)
  from closed first show ?thesis
    by (auto simp: is_negative_response_def NegativeResponseId_def)
qed

theorem stop_session_while_closed_witness:
  "service_short_name (sample_message ''session_stop'' [0x20] Map.empty) = ''session_stop'' \<and>
   \<not> diag_session_open (init\<lparr>dizziness_level := 4\<rparr>) \<and>
   handle_request sample_catalog (sample_message ''session_stop'' [0x20] Map.empty)
       (init\<lparr>dizziness_level := 4\<rparr>) sample_env =
     (None, init\<lparr>dizziness_level := 4\<rparr>,
      sample_env\<lparr>ecu_log := [Info_received_message ''session_stop''],
                 transport := [[0x7F, 0x20, 0x7F]]\<rparr>) \<and>
   is_negative_response [0x7F, 0x20, 0x7F] \<and>
   handle_request sample_catalog (sample_message ''session_stop'' [0x20] Map.empty)
       (init\<lparr>dizziness_level := 4, diag_session_open := True\<rparr>) sample_env =
     (None, init\<lparr>dizziness_level := 4\<rparr>,
      sample_env\<lparr>ecu_log := [Info_received_message ''session_stop''],
                 transport := [[0x60]]\<rparr>) \<and>
   transport (snd (snd (handle_request sample_catalog
       (sample_message ''session_stop'' [0x20] Map.empty)
       (init\<lparr>dizziness_level := 4\<rparr>)
       (sample_env\<lparr>ecu_log := [Info_received_message ''session_stop''],
                  transport := [[0x60]]\<rparr>)))) = [[0x60], [0x7F, 0x20, 0x7F]]"
proof -
  let ?m = "sample_message ''session_stop'' [0x20] Map.empty"
  let ?s = "init\<lparr>dizziness_level := 4\<rparr>"
  let ?e = "sample_env\<lparr>ecu_log := [Info_received_message ''session_stop''],
                 transport := [[0x60]]\<rparr>"
  have stop: "service_short_name ?m = ''session_stop''" by (simp add: sample_message_def)
  have closed: "\<not> diag_session_open ?s" by (simp add: init_def new_server_def)
  have first: "handle_request sample_catalog ?m (?s\<lparr>diag_session_open := True\<rparr>) sample_env =
     (None, ?s, ?e)"
    by (simp add: handle_request_def ecu_logger_def transport_write_def encode_response_def
          sample_catalog_def sample_encode_def sample_message_def sample_env_def
          init_def new_server_def)
  from stop_session_while_closed [OF stop, of ?s sample_catalog sample_env ?m
      "?s\<lparr>diag_session_open := True\<rparr>" sample_env, THEN conjunct1] closed
  have one: "handle_request sample_catalog ?m ?s sample_env =
     (None, ?s,
      sample_env\<lparr>ecu_log := [Info_received_message ''session_stop''],
                 transport := [[0x7F, 0x20, 0x7F]]\<rparr>) \<and>
     is_negative_response [0x7F, 0x20, 0x7F]"
    by (simp add: sample_message_def sample_env_def)
  from stop_session_while_closed [OF stop, of ?s sample_catalog ?e ?m
      "?s\<lparr>diag_session_open := True\<rparr>" sample_env, THEN conjunct2] stop first
  have two: "transport (snd (snd (handle_request sample_catalog ?m ?s ?e))) =
     [[0x60], [0x7F, 0x20, 0x7F]]"
    by (simp add: sample_message_def sample_env_def)
  from stop closed one two first show ?thesis
    by (simp add: init_def new_server_def)
qed

subsection \<open>One response per dispatched request\<close>

text \<open>
  A request that decodes to exactly one message and gets no response: the session is
  open and the dispatcher has no branch for the service \<open>report_status\<close>, so it falls
  through to the end of \<open>handle_request\<close>.
\<close>

theorem unhandled_service_counterexample:
  "decode sample_catalog [0x22] = Inr [report_status_request] \<and>
   handle_request sample_catalog report_status_request open_server sample_env =
     (None, open_server, sample_env\<lparr>ecu_log := [Info_received_message ''report_status'']\<rparr>) \<and>
   transport (sample_env\<lparr>ecu_log := [Info_received_message ''report_status'']\<rparr>) =
     transport sample_env \<and>
   transport (snd (snd (data_received sample_catalog [0x22] open_server sample_env))) = []"
  by (simp add: data_received_def except_DecodeError_def handle_request_def ecu_logger_def
        sample_catalog_def report_status_request_def sample_message_def open_server_def
        init_def new_server_def sample_env_def)

text \<open>
  C4, as amended. The dispatcher writes at most one response per decoded message, and
  always at the end of what was already written. When it returns normally it has
  written exactly one response if the session was closed or the service is one of
  \<open>tester_present\<close>, \<open>session_start\<close>, \<open>session_stop\<close>, \<open>do_forward_flips\<close>. When the
  session is open and the service is none of these four, it returns normally and has
  written nothing. When an exception leaves it (the diagnostic layer could not encode
  the response, or a flip parameter is missing), it has written nothing.
\<close>

theorem dispatcher_response_count:
  assumes "handle_request cat m s e = (x, s', e')"
  shows "(x = None \<and>
       (\<not> diag_session_open s \<or>
        service_short_name m \<in> {''tester_present'', ''session_start'', ''session_stop'',
                                   ''do_forward_flips''}) \<longrightarrow>
       (\<exists>p. transport e' = transport e @ [p])) \<and>
    (diag_session_open s \<and>
        service_short_name m \<notin> {''tester_present'', ''session_start'', ''session_stop'',
                                   ''do_forward_flips''} \<longrightarrow>
       x = None \<and> transport e' = transport e) \<and>
    (x \<noteq> None \<longrightarrow> transport e' = transport e) \<and>
    (transport e' = transport e \<or> (\<exists>p. transport e' = transport e @ [p]))"
  using handle_request_env [OF assms] by (cases x) auto

theorem dispatcher_response_count_witness:
  "handle_request sample_catalog (sample_message ''tester_present'' [0x3E] Map.empty)
       open_server sample_env =
     (None, open_server,
      sample_env\<lparr>ecu_log := [Info_received_message ''tester_present''],
                 transport := [[0x7E]]\<rparr>) \<and>
   diag_session_open open_server \<and>
   service_short_name (sample_message ''tester_present'' [0x3E] Map.empty)
     \<in> {''tester_present'', ''session_start'', ''session_stop'', ''do_forward_flips''} \<and>
   (\<exists>p. transport (sample_env\<lparr>ecu_log := [Info_received_message ''tester_present''],
                 transport := [[0x7E]]\<rparr>) = transport sample_env @ [p]) \<and>
   service_short_name report_status_request
     \<notin> {''tester_present'', ''session_start'', ''session_stop'', ''do_forward_flips''} \<and>
   fst (handle_request sample_catalog report_status_request open_server sample_env) = None \<and>
   transport (snd (snd (handle_request sample_catalog report_status_request open_server
       sample_env))) = transport sample_env"
proof -
  let ?m = "sample_message ''tester_present'' [0x3E] Map.empty"
  let ?e = "sample_env\<lparr>ecu_log := [Info_received_message ''tester_present''],
                 transport := [[0x7E]]\<rparr>"
  have h: "handle_request sample_catalog ?m open_server sample_env = (None, open_server, ?e)"
    by (simp add: handle_request_def respond_def encode_response_def ecu_logger_def
          transport_write_def sample_catalog_def sample_encode_def sample_message_def
          open_server_def init_def new_server_def sample_env_def)
  have opened: "diag_session_open open_server"
    by (simp add: open_server_def)
  have known: "service_short_name ?m
     \<in> {''tester_present'', ''session_start'', ''session_stop'', ''do_forward_flips''}"
    by (simp add: sample_message_def)
  have unknown: "service_short_name report_status_request
     \<notin> {''tester_present'', ''session_start'', ''session_stop'', ''do_forward_flips''}"
    by (simp add: report_status_request_def sample_message_def)
  obtain x s' e' where
    h': "handle_request sample_catalog report_status_request open_server sample_env = (x, s', e')"
    by (cases "handle_request sample_catalog report_status_request open_server sample_env") auto
  from dispatcher_response_count [OF h] known
  have one: "\<exists>p. transport ?e = transport sample_env @ [p]" by blast
  from dispatcher_response_count [OF h'] opened unknown
  have "x = None \<and> transport e' = transport sample_env" by blast
  with h' have none: "fst (handle_request sample_catalog report_status_request open_server
       sample_env) = None \<and>
     transport (snd (snd (handle_request sample_catalog report_status_request open_server
       sample_env))) = transport sample_env"
    by simp
  from h opened known one unknown none show ?thesis by blast
qed

subsection \<open>Frames that do not decode to one message\<close>

text \<open>
  A frame for which the diagnostic layer returns two messages: the assertion fails and
  the \<open>AssertionError\<close>, which the \<open>except\<close> clause does not catch, leaves the callback;
  the only log record is the one written before decoding.
\<close>

theorem ambiguous_decode_counterexample:
  "length (projr (decode sample_catalog [0xEE])) = 2 \<and>
   isl (decode sample_catalog [0xEE]) = False \<and>
   data_received sample_catalog [0xEE] init sample_env =
     (Some AssertionError, init\<lparr>data_receive_event := True\<rparr>,
      sample_env\<lparr>ecu_log := [Debug_data_received [0xEE]]\<rparr>)"
  by (simp add: data_received_def except_DecodeError_def ecu_logger_def
        sample_catalog_def sample_env_def)

text \<open>
  C6, as amended. When the diagnostic layer raises \<open>DecodeError\<close> for a frame, the
  receive callback logs a warning, writes no response and returns normally; the server
  is as before except that the idle signal is set. When the layer returns a list of
  messages whose length is not one, the assertion of the callback fails: an
  \<open>AssertionError\<close> leaves the callback, no request is dispatched, no response is written
  and no decode warning is logged; again only the idle signal has changed.
\<close>

theorem decode_failure_and_assertion:
  "(decode cat data = Inl DecodeError \<longrightarrow>
      data_received cat data s e =
        (None, s\<lparr>data_receive_event := True\<rparr>,
         e\<lparr>ecu_log := ecu_log e @ [Debug_data_received data, Warning_could_not_decode]\<rparr>)) \<and>
   (decode cat data = Inr ms \<and> length ms \<noteq> 1 \<longrightarrow>
      data_received cat data s e =
        (Some AssertionError, s\<lparr>data_receive_event := True\<rparr>,
         e\<lparr>ecu_log := ecu_log e @ [Debug_data_received data]\<rparr>))"
  by (simp add: data_received_def Let_def except_DecodeError_def ecu_logger_def)

theorem decode_failure_and_assertion_witness:
  "decode sample_catalog [0x99] = Inl DecodeError \<and>
   data_received sample_catalog [0x99] open_server sample_env =
     (None, open_server\<lparr>data_receive_event := True\<rparr>,
      sample_env\<lparr>ecu_log := [Debug_data_received [0x99], Warning_could_not_decode]\<rparr>) \<and>
   decode sample_catalog [0xEE] = Inr (projr (decode sample_catalog [0xEE])) \<and>
   length (projr (decode sample_catalog [0xEE])) \<noteq> 1 \<and>
   data_received sample_catalog [0xEE] open_server sample_env =
     (Some AssertionError, open_server\<lparr>data_receive_event := True\<rparr>,
      sample_env\<lparr>ecu_log := [Debug_data_received [0xEE]]\<rparr>)"
proof -
  have raises: "decode sample_catalog [0x99] = Inl DecodeError"
    by (simp add: sample_catalog_def)
  have two: "decode sample_catalog [0xEE] = Inr (projr (decode sample_catalog [0xEE]))"
    by (simp add: sample_catalog_def)
  have len: "length (projr (decode sample_catalog [0xEE])) \<noteq> 1"
    by (simp add: sample_catalog_def)
  from decode_failure_and_assertion [of sample_catalog "[0x99]" open_server sample_env
      "projr (decode sample_catalog [0xEE])", THEN conjunct1] raises
  have a: "data_received sample_catalog [0x99] open_server sample_env =
     (None, open_server\<lparr>data_receive_event := True\<rparr>,
      sample_env\<lparr>ecu_log := ecu_log sample_env @
         [Debug_data_received [0x99], Warning_could_not_decode]\<rparr>)"
    by blast
  from decode_failure_and_assertion [of sample_catalog "[0xEE]" open_server sample_env
      "projr (decode sample_catalog [0xEE])", THEN conjunct2] two len
  have b: "data_received sample_catalog [0xEE] open_server sample_env =
     (Some AssertionError, open_server\<lparr>data_receive_event := True\<rparr>,
      sample_env\<lparr>ecu_log := ecu_log sample_env @ [Debug_data_received [0xEE]]\<rparr>)"
    by blast
  from raises two len a b show ?thesis
    by (simp add: sample_env_def)
qed

end
